theory Spec2Isabelle
  imports Complex_Main
begin

section \<open>The load tester of the interview application (scripts/load_test.py)\<close>

text \<open>
  The script talks to three things outside itself: the HTTP service under test, the
  random number generator and the clock. They are gathered in a \<open>world\<close> that every
  operation takes and returns. A session sees the service as an oracle that answers its
  i-th request, the generator as two streams of draws and the clock as a stream of
  readings. Every call of \<open>requests.get\<close>, \<open>requests.post\<close> and \<open>resp.json\<close>, and
  every pause that \<open>time.sleep\<close> takes, is appended to a trace, so that what a session
  did can be read off the world it leaves behind. Python floats are modelled as reals
  (the delays are finite numbers; NaN and the infinities are not values of the model),
  Python integers as \<open>int\<close>, exceptions as values of type \<open>error\<close> by class and message.
\<close>

subsection \<open>Data\<close>

datatype error =
    HTTPError int string
  | ConnectionError string
  | RuntimeError string
  | ValueError string
  | OverflowError string
  | JSONDecodeError string
  | RecursionError string
  | ZeroDivisionError

datatype json =
    JNull
  | JBool bool
  | JNum int
  | JStr string
  | JArr "json list"
  | JObj "(string \<times> json) list"

text \<open>
  A response: its status, its body, and what \<open>resp.json()\<close> does with the body, which is
  to return the document or to raise (json.JSONDecodeError for a body that is not JSON,
  RecursionError for one nested too deeply).
\<close>

record response =
  status_code :: int
  resp_text :: string
  json_result :: "error + json"

datatype request =
    GET string
  | POST string "(string \<times> string) list"

datatype event =
    Request request
  | Parse string
  | Sleep real

record world =
  service :: "nat \<Rightarrow> request \<Rightarrow> error + response"
  bits :: "nat \<Rightarrow> nat"
  units :: "nat \<Rightarrow> real"
  clock :: "nat \<Rightarrow> real"
  drawn :: nat
  ticks :: nat
  trace :: "event list"

subsection \<open>Library operations the script calls\<close>

text \<open>\<open>str(n)\<close> for an integer, as the f-string of the user message formats it.\<close>

fun decimal :: "nat \<Rightarrow> string" where
  "decimal n = (if n < 10 then [''0123456789'' ! n]
                else decimal (n div 10) @ [''0123456789'' ! (n mod 10)])"

declare decimal.simps [simp del]

definition str :: "int \<Rightarrow> string" where
  "str i = (if i < 0 then CHR ''-'' # decimal (nat (- i)) else decimal (nat i))"

text \<open>\<open>s.rstrip('/')\<close>.\<close>

definition rstrip :: "string \<Rightarrow> string" where
  "rstrip s = rev (dropWhile (\<lambda>c. c = CHR ''/'') (rev s))"

text \<open>\<open>range(n)\<close>: empty when \<open>n \<le> 0\<close>.\<close>

definition py_range :: "int \<Rightarrow> int list" where
  "py_range n = map int [0..<nat n]"

text \<open>\<open>string.ascii_letters + string.digits\<close>.\<close>

definition ascii_lowercase :: string where
  "ascii_lowercase = ''abcdefghijklmnopqrstuvwxyz''"

definition ascii_uppercase :: string where
  "ascii_uppercase = ''ABCDEFGHIJKLMNOPQRSTUVWXYZ''"

definition ascii_letters :: string where
  "ascii_letters = ascii_lowercase @ ascii_uppercase"

definition digits :: string where
  "digits = ''0123456789''"

definition chars :: string where
  "chars = ascii_letters @ digits"

text \<open>\<open>time.time()\<close> reads the next value of the clock.\<close>

definition time_time :: "world \<Rightarrow> real \<times> world" where
  "time_time w = (clock w (ticks w), w\<lparr>ticks := Suc (ticks w)\<rparr>)"

text \<open>
  \<open>random.choice(seq)\<close> for a non-empty sequence: the element at an index below
  \<open>len(seq)\<close> taken from the next integer draw.
\<close>

definition random_choice :: "'a list \<Rightarrow> world \<Rightarrow> 'a \<times> world" where
  "random_choice seq w = (seq ! (bits w (drawn w) mod length seq), w\<lparr>drawn := Suc (drawn w)\<rparr>)"

text \<open>\<open>random.uniform(a, b)\<close> is \<open>a + (b - a) * random()\<close>.\<close>

definition random_uniform :: "real \<Rightarrow> real \<Rightarrow> world \<Rightarrow> real \<times> world" where
  "random_uniform a b w = (a + (b - a) * units w (drawn w), w\<lparr>drawn := Suc (drawn w)\<rparr>)"

text \<open>
  \<open>time.sleep(secs)\<close> converts the duration to a 64-bit count of nanoseconds and raises
  OverflowError when it does not fit; it raises ValueError for a negative duration;
  otherwise the pause is taken.
\<close>

definition sleep_limit :: real where
  "sleep_limit = (2 ^ 63 - 1) / 10 ^ 9"

definition time_sleep :: "real \<Rightarrow> world \<Rightarrow> (error + unit) \<times> world" where
  "time_sleep secs w =
     (if sleep_limit < \<bar>secs\<bar>
      then (Inl (OverflowError ''timestamp too large to convert to C _PyTime_t''), w)
      else if secs < 0 then (Inl (ValueError ''sleep length must be non-negative''), w)
      else (Inr (), w\<lparr>trace := trace w @ [Sleep secs]\<rparr>))"

text \<open>The requests in a trace, and the number of requests issued so far.\<close>

fun requests_of :: "event list \<Rightarrow> request list" where
  "requests_of [] = []"
| "requests_of (Request rq # es) = rq # requests_of es"
| "requests_of (Parse _ # es) = requests_of es"
| "requests_of (Sleep _ # es) = requests_of es"


definition issued :: "world \<Rightarrow> nat" where
  "issued w = length (requests_of (trace w))"

text \<open>
  \<open>requests.get\<close> and \<open>requests.post\<close>: the service answers the request with a
  response, or the transport fails with an exception (\<open>Inl\<close>).
\<close>

definition send :: "request \<Rightarrow> world \<Rightarrow> (error + response) \<times> world" where
  "send rq w = (service w (issued w) rq, w\<lparr>trace := trace w @ [Request rq]\<rparr>)"

definition requests_get :: "string \<Rightarrow> world \<Rightarrow> (error + response) \<times> world" where
  "requests_get url w = send (GET url) w"

definition requests_post :: "string \<Rightarrow> (string \<times> string) list \<Rightarrow> world \<Rightarrow> (error + response) \<times> world" where
  "requests_post url payload w = send (POST url payload) w"

text \<open>
  \<open>resp.raise_for_status()\<close> raises HTTPError, whose message gives the status code and
  the URL, exactly for the status codes 400 to 599.
\<close>

definition is_http_error :: "int \<Rightarrow> bool" where
  "is_http_error status \<longleftrightarrow> 400 \<le> status \<and> status < 600"

definition raise_for_status :: "string \<Rightarrow> response \<Rightarrow> error + unit" where
  "raise_for_status url resp =
     (if is_http_error (status_code resp) then Inl (HTTPError (status_code resp) url) else Inr ())"

text \<open>\<open>resp.json()\<close> returns the document or raises.\<close>

definition resp_json :: "response \<Rightarrow> world \<Rightarrow> (error + json) \<times> world" where
  "resp_json resp w = (json_result resp, w\<lparr>trace := trace w @ [Parse (resp_text resp)]\<rparr>)"

text \<open>What \<open>except json.JSONDecodeError\<close> catches.\<close>

fun is_JSONDecodeError :: "error \<Rightarrow> bool" where
  "is_JSONDecodeError (JSONDecodeError _) = True"
| "is_JSONDecodeError _ = False"

text \<open>Python's true division of floats.\<close>

definition truediv :: "real \<Rightarrow> real \<Rightarrow> error + real" where
  "truediv a b = (if b = 0 then Inl ZeroDivisionError else Inr (a / b))"

subsection \<open>random_session_id\<close>

fun random_chars :: "nat \<Rightarrow> world \<Rightarrow> string \<times> world" where
  "random_chars 0 w = ([], w)"
| "random_chars (Suc n) w =
     (let (c, w1) = random_choice chars w;
          (cs, w2) = random_chars n w1
      in (c # cs, w2))"

definition random_session_id :: "int \<Rightarrow> world \<Rightarrow> string \<times> world" where
  "random_session_id len w = random_chars (nat len) w"

subsection \<open>run_single_interview\<close>

definition url_landing :: "string \<Rightarrow> string \<Rightarrow> string \<Rightarrow> string" where
  "url_landing base_url interview_id session_id =
     rstrip base_url @ ''/'' @ interview_id @ ''/'' @ session_id"

definition url_next :: "string \<Rightarrow> string" where
  "url_next base_url = rstrip base_url @ ''/next''"

definition payload :: "string \<Rightarrow> string \<Rightarrow> int \<Rightarrow> (string \<times> string) list" where
  "payload session_id interview_id turn =
     [(''session_id'', session_id),
      (''interview_id'', interview_id),
      (''user_message'', ''Dummy answer turn '' @ str turn)]"

text \<open>
  The body of the loop over the turns (lines 45 to 60). It takes the local variable
  \<open>total_requests\<close> and the world and returns them updated, or the exception raised.
\<close>

definition turn_body ::
  "string \<Rightarrow> string \<Rightarrow> int \<Rightarrow> real \<Rightarrow> real \<Rightarrow> string \<Rightarrow> int \<Rightarrow> int \<times> world \<Rightarrow> (error + int) \<times> world" where
  "turn_body session_id interview_id num_turns min_delay max_delay url turn s =
     (let (total_requests, w) = s;
          (reply, w1) = requests_post url (payload session_id interview_id turn) w
      in case reply of
           Inl e \<Rightarrow> (Inl e, w1)
         | Inr resp \<Rightarrow>
            (let total_requests = total_requests + 1
             in case raise_for_status url resp of
                  Inl e \<Rightarrow> (Inl e, w1)
                | Inr _ \<Rightarrow>
                   (let (parsed, w2) = resp_json resp w1
                    in case parsed of
                         Inl e \<Rightarrow>
                           (if is_JSONDecodeError e
                            then (Inl (RuntimeError (''Non-JSON response for session ''
                                                     @ session_id @ '': '' @ resp_text resp)), w2)
                            else (Inl e, w2))
                       | Inr _ \<Rightarrow>
                          (if turn < num_turns - 1 \<and> max_delay > 0
                           then (let (secs, w3) = random_uniform min_delay max_delay w2;
                                     (slept, w4) = time_sleep secs w3
                                 in (case slept of
                                       Inl e \<Rightarrow> (Inl e, w4)
                                     | Inr _ \<Rightarrow> (Inr total_requests, w4)))
                           else (Inr total_requests, w2)))))"

text \<open>The \<open>for\<close> loop: the body for each turn in order, left at the first exception.\<close>

fun for_turns ::
  "(int \<Rightarrow> int \<times> world \<Rightarrow> (error + int) \<times> world) \<Rightarrow> int list \<Rightarrow> int \<times> world \<Rightarrow> (error + int) \<times> world" where
  "for_turns body [] s = (Inr (fst s), snd s)"
| "for_turns body (turn # turns) s =
     (case body turn s of
        (Inl e, w) \<Rightarrow> (Inl e, w)
      | (Inr total_requests, w) \<Rightarrow> for_turns body turns (total_requests, w))"

definition run_single_interview ::
  "string \<Rightarrow> string \<Rightarrow> int \<Rightarrow> real \<Rightarrow> real \<Rightarrow> world \<Rightarrow> (error + int \<times> real) \<times> world" where
  "run_single_interview base_url interview_id num_turns min_delay max_delay w =
     (let (session_id, w1) = random_session_id 16 w;
          (start_time, w2) = time_time w1;
          total_requests = 0;
          (reply, w3) = requests_get (url_landing base_url interview_id session_id) w2
      in case reply of
           Inl e \<Rightarrow> (Inl e, w3)
         | Inr resp \<Rightarrow>
            (let total_requests = total_requests + 1
             in case raise_for_status (url_landing base_url interview_id session_id) resp of
                  Inl e \<Rightarrow> (Inl e, w3)
                | Inr _ \<Rightarrow>
                   (case for_turns
                           (turn_body session_id interview_id num_turns min_delay max_delay
                              (url_next base_url))
                           (py_range num_turns) (total_requests, w3) of
                      (Inl e, w4) \<Rightarrow> (Inl e, w4)
                    | (Inr total_requests, w4) \<Rightarrow>
                       (let (end_time, w5) = time_time w4;
                            duration = end_time - start_time
                        in (Inr (total_requests, duration), w5)))))"

subsection \<open>main\<close>

text \<open>
  \<open>as_completed(futures)\<close> yields every future once, in an order that the scheduling
  decides: \<open>order\<close> lists the positions of the futures in the order in which they are
  yielded.
\<close>

definition as_completed :: "nat list \<Rightarrow> 'a list \<Rightarrow> 'a list" where
  "as_completed order futures = map (\<lambda>j. futures ! j) order"

text \<open>
  The loop over \<open>as_completed(futures)\<close>: \<open>future.result()\<close> returns what the session
  returned or raises the exception the session raised.
\<close>

fun collect :: "int \<Rightarrow> (error + int \<times> real) list \<Rightarrow> error + int" where
  "collect total_requests [] = Inr total_requests"
| "collect total_requests (future # futures) =
     (case future of
        Inl e \<Rightarrow> Inl e
      | Inr (reqs, _) \<Rightarrow> collect (total_requests + reqs) futures)"

text \<open>\<open>rps = total_requests / total_duration if total_duration > 0 else 0.0\<close>.\<close>

definition throughput :: "int \<Rightarrow> real \<Rightarrow> error + real" where
  "throughput total_requests total_duration =
     (if total_duration > 0 then truediv (of_int total_requests) total_duration else Inr 0)"

record args =
  base_url :: string
  interview_id :: string
  users :: int
  turns :: int
  min_delay :: real
  max_delay :: real
  max_workers :: "int option"

record summary =
  total_requests :: int
  total_duration :: real
  rps :: real

text \<open>
  \<open>main\<close> after argument parsing. \<open>sessions j\<close> is the world in which the j-th session
  submitted runs, \<open>order\<close> the order in which \<open>as_completed\<close> yields the futures (a
  permutation of the positions \<open>0\<close> to \<open>users - 1\<close>); \<open>global_start\<close> and \<open>global_end\<close>
  are the two readings of the clock. \<open>ThreadPoolExecutor\<close> raises ValueError for a pool
  size that is not positive; the pool is taken to start its worker threads (the limit of
  the platform on the number of threads is not modelled).
\<close>

definition session_outcome :: "args \<Rightarrow> (nat \<Rightarrow> world) \<Rightarrow> nat \<Rightarrow> error + int \<times> real" where
  "session_outcome a sessions j =
     fst (run_single_interview (base_url a) (interview_id a) (turns a) (min_delay a) (max_delay a)
            (sessions j))"

text \<open>\<open>args.max_workers or args.users\<close>: the second operand when the first is None or 0.\<close>

definition pool_size :: "args \<Rightarrow> int" where
  "pool_size a = (case max_workers a of
                    None \<Rightarrow> users a
                  | Some m \<Rightarrow> if m = 0 then users a else m)"

definition main :: "args \<Rightarrow> real \<Rightarrow> real \<Rightarrow> (nat \<Rightarrow> world) \<Rightarrow> nat list \<Rightarrow> error + summary" where
  "main a global_start global_end sessions order =
     (let workers = pool_size a
      in if workers \<le> 0 then Inl (ValueError ''max_workers must be greater than 0'')
         else
          (let futures = map (session_outcome a sessions) [0..<nat (users a)]
           in case collect 0 (as_completed order futures) of
                Inl e \<Rightarrow> Inl e
              | Inr requests_sum \<Rightarrow>
                 (let wall_time = global_end - global_start
                  in (case throughput requests_sum wall_time of
                        Inl e \<Rightarrow> Inl e
                      | Inr r \<Rightarrow>
                          Inr \<lparr>total_requests = requests_sum, total_duration = wall_time,
                               rps = r\<rparr>))))"

subsection \<open>Vocabulary for the properties\<close>

text \<open>
  What a session that starts in world \<open>w\<close> will meet: its identifier, its requests, the
  service's replies to them (the landing request is the next request of the world, turn
  \<open>t\<close> follows it at distance \<open>t + 1\<close>), and the length of the pause after turn \<open>t\<close>
  (the identifier takes 16 draws, every pause one).
\<close>

definition session_id_of :: "world \<Rightarrow> string" where
  "session_id_of w = fst (random_session_id 16 w)"

definition landing_request :: "string \<Rightarrow> string \<Rightarrow> world \<Rightarrow> request" where
  "landing_request b i w = GET (url_landing b i (session_id_of w))"

definition turn_request :: "string \<Rightarrow> string \<Rightarrow> world \<Rightarrow> int \<Rightarrow> request" where
  "turn_request b i w t = POST (url_next b) (payload (session_id_of w) i t)"

definition landing_reply :: "string \<Rightarrow> string \<Rightarrow> world \<Rightarrow> error + response" where
  "landing_reply b i w = service w (issued w) (landing_request b i w)"

definition turn_reply :: "string \<Rightarrow> string \<Rightarrow> world \<Rightarrow> int \<Rightarrow> error + response" where
  "turn_reply b i w t = service w (issued w + 1 + nat t) (turn_request b i w t)"

definition pause_secs :: "real \<Rightarrow> real \<Rightarrow> world \<Rightarrow> int \<Rightarrow> real" where
  "pause_secs mn mx w t = mn + (mx - mn) * units w (drawn w + 16 + nat t)"

text \<open>The world once the landing request has been issued.\<close>

definition after_landing :: "string \<Rightarrow> string \<Rightarrow> world \<Rightarrow> world" where
  "after_landing b i w =
     (snd (random_session_id 16 w))
       \<lparr>ticks := Suc (ticks w), trace := trace w @ [Request (landing_request b i w)]\<rparr>"

text \<open>A reply that passes \<open>raise_for_status\<close>, and one that also parses as JSON.\<close>

fun status_ok :: "error + response \<Rightarrow> bool" where
  "status_ok (Inl _) = False"
| "status_ok (Inr resp) = (\<not> is_http_error (status_code resp))"

fun turn_ok :: "error + response \<Rightarrow> bool" where
  "turn_ok (Inl _) = False"
| "turn_ok (Inr resp) = (\<not> is_http_error (status_code resp) \<and> \<not> isl (json_result resp))"

text \<open>A duration that \<open>time.sleep\<close> accepts.\<close>

definition sleep_accepts :: "real \<Rightarrow> bool" where
  "sleep_accepts secs \<longleftrightarrow> 0 \<le> secs \<and> secs \<le> sleep_limit"

text \<open>
  The session gets as far as issuing the request of turn \<open>k\<close>: the landing request and
  the turns before \<open>k\<close> succeed, and no pause before turn \<open>k\<close> is refused by
  \<open>time.sleep\<close>.
\<close>

definition reaches_turn :: "string \<Rightarrow> string \<Rightarrow> real \<Rightarrow> real \<Rightarrow> world \<Rightarrow> int \<Rightarrow> bool" where
  "reaches_turn b i mn mx w k \<longleftrightarrow>
     status_ok (landing_reply b i w) \<and>
     (\<forall>t. 0 \<le> t \<and> t < k \<longrightarrow> turn_ok (turn_reply b i w t)) \<and>
     (\<forall>t. 0 \<le> t \<and> t < k \<and> 0 < mx \<longrightarrow> sleep_accepts (pause_secs mn mx w t))"

text \<open>The session gets through all its turns.\<close>

definition completes :: "string \<Rightarrow> string \<Rightarrow> int \<Rightarrow> real \<Rightarrow> real \<Rightarrow> world \<Rightarrow> bool" where
  "completes b i n mn mx w \<longleftrightarrow>
     reaches_turn b i mn mx w (n - 1) \<and> (1 \<le> n \<longrightarrow> turn_ok (turn_reply b i w (n - 1)))"

text \<open>
  What turn \<open>t\<close> of a session of \<open>n\<close> turns adds to the trace when it completes: its
  request, the call of \<open>resp.json\<close> on the body of the reply and, when the turn is not
  the final one and \<open>max_delay\<close> is positive, the pause.
\<close>

fun reply_text :: "error + response \<Rightarrow> string" where
  "reply_text (Inl _) = []"
| "reply_text (Inr resp) = resp_text resp"

definition turn_events :: "string \<Rightarrow> string \<Rightarrow> int \<Rightarrow> real \<Rightarrow> real \<Rightarrow> world \<Rightarrow> int \<Rightarrow> event list" where
  "turn_events b i n mn mx w t =
     [Request (turn_request b i w t), Parse (reply_text (turn_reply b i w t))]
     @ (if t < n - 1 \<and> 0 < mx then [Sleep (pause_secs mn mx w t)] else [])"

text \<open>A service that answers every request with success, and a generator within its range.\<close>

definition always_succeeds :: "world \<Rightarrow> bool" where
  "always_succeeds w \<longleftrightarrow> (\<forall>n rq. turn_ok (service w n rq))"

definition unit_draws :: "world \<Rightarrow> bool" where
  "unit_draws w \<longleftrightarrow> (\<forall>n. 0 \<le> units w n \<and> units w n \<le> 1)"

text \<open>
  Delays whose pauses \<open>time.sleep\<close> accepts: no pause is asked for, or both delays are
  durations that it accepts.
\<close>

definition delays_accepted :: "real \<Rightarrow> real \<Rightarrow> bool" where
  "delays_accepted mn mx \<longleftrightarrow> (0 < mx \<longrightarrow> sleep_accepts mn \<and> sleep_accepts mx)"

text \<open>\<open>order\<close> yields each of \<open>n\<close> futures once.\<close>

definition yields_each :: "nat list \<Rightarrow> nat \<Rightarrow> bool" where
  "yields_each order n \<longleftrightarrow> distinct order \<and> set order = {..<n}"

subsection \<open>Mock services\<close>

definition ok_response :: response where
  "ok_response = \<lparr>status_code = 200, resp_text = ''{}'', json_result = Inr (JObj [])\<rparr>"

definition error_response :: response where
  "error_response =
     \<lparr>status_code = 500, resp_text = ''Internal Server Error'',
      json_result = Inl (JSONDecodeError ''Expecting value'')\<rparr>"

definition html_response :: response where
  "html_response =
     \<lparr>status_code = 200, resp_text = ''<html>'',
      json_result = Inl (JSONDecodeError ''Expecting value'')\<rparr>"

text \<open>A body of 100000 opening brackets, on which the parser exceeds the recursion limit.\<close>

definition deep_body :: string where
  "deep_body = replicate 100000 (CHR ''['')"

definition deep_response :: response where
  "deep_response =
     \<lparr>status_code = 200, resp_text = deep_body,
      json_result = Inl (RecursionError ''maximum recursion depth exceeded'')\<rparr>"


text \<open>A world whose service answers its n-th request with \<open>replies n\<close>.\<close>

definition mock_world :: "(nat \<Rightarrow> response) \<Rightarrow> world" where
  "mock_world replies =
     \<lparr>service = (\<lambda>n rq. Inr (replies n)), bits = (\<lambda>n. 7 * n + 3), units = (\<lambda>n. 1 / 2),
      clock = (\<lambda>n. real n), drawn = 0, ticks = 0, trace = []\<rparr>"

definition always_ok :: "nat \<Rightarrow> response" where
  "always_ok n = ok_response"

definition fails_at :: "nat \<Rightarrow> nat \<Rightarrow> response" where
  "fails_at k n = (if n = k then error_response else ok_response)"

definition html_at :: "nat \<Rightarrow> nat \<Rightarrow> response" where
  "html_at k n = (if n = k then html_response else ok_response)"

definition deep_at :: "nat \<Rightarrow> nat \<Rightarrow> response" where
  "deep_at k n = (if n = k then deep_response else ok_response)"


text \<open>Every session in a world of its own with the same replies; the first submitted apart.\<close>

definition mock_sessions :: "(nat \<Rightarrow> response) \<Rightarrow> nat \<Rightarrow> world" where
  "mock_sessions replies j = mock_world replies"

definition first_fails :: "nat \<Rightarrow> world" where
  "first_fails j = (if j = 0 then mock_world (fails_at 0) else mock_world always_ok)"

definition mock_args :: "int \<Rightarrow> int \<Rightarrow> args" where
  "mock_args n t =
     \<lparr>base_url = ''http://127.0.0.1:8000'', interview_id = ''STOCK_MARKET'', users = n, turns = t,
      min_delay = 1, max_delay = 3, max_workers = None\<rparr>"

section \<open>Lemmas\<close>

subsection \<open>Traces, frames and the loop\<close>

lemma requests_of_append: "requests_of (es @ fs) = requests_of es @ requests_of fs"
  by (induction es rule: requests_of.induct) simp_all


lemma random_chars_frame:
  "service (snd (random_chars n w)) = service w \<and> units (snd (random_chars n w)) = units w
   \<and> bits (snd (random_chars n w)) = bits w \<and> clock (snd (random_chars n w)) = clock w
   \<and> ticks (snd (random_chars n w)) = ticks w \<and> trace (snd (random_chars n w)) = trace w
   \<and> drawn (snd (random_chars n w)) = drawn w + n"
  by (induction n arbitrary: w) (simp_all add: random_choice_def split_beta)

lemma turn_body_transport:
  assumes "service w (issued w) (POST url (payload sid i t)) = Inl e"
  shows "turn_body sid i n mn mx url t (c, w)
         = (Inl e, w\<lparr>trace := trace w @ [Request (POST url (payload sid i t))]\<rparr>)"
  using assms by (simp add: turn_body_def requests_post_def send_def)


lemma turn_body_parse_raises:
  assumes "service w (issued w) (POST url (payload sid i t)) = Inr resp"
      and "\<not> is_http_error (status_code resp)" and "json_result resp = Inl e"
      and "\<not> is_JSONDecodeError e"
  shows "turn_body sid i n mn mx url t (c, w)
         = (Inl e,
            w\<lparr>trace := trace w @ [Request (POST url (payload sid i t)), Parse (resp_text resp)]\<rparr>)"
  using assms
  by (simp add: turn_body_def requests_post_def send_def raise_for_status_def resp_json_def)

lemma turn_body_nonjson:
  assumes "service w (issued w) (POST url (payload sid i t)) = Inr resp"
      and "\<not> is_http_error (status_code resp)" and "json_result resp = Inl e"
      and "is_JSONDecodeError e"
  shows "turn_body sid i n mn mx url t (c, w)
         = (Inl (RuntimeError (''Non-JSON response for session '' @ sid @ '': '' @ resp_text resp)),
            w\<lparr>trace := trace w @ [Request (POST url (payload sid i t)), Parse (resp_text resp)]\<rparr>)"
  using assms
  by (simp add: turn_body_def requests_post_def send_def raise_for_status_def resp_json_def)

lemma turn_body_good:
  assumes "service w (issued w) (POST url (payload sid i t)) = Inr resp"
      and "\<not> is_http_error (status_code resp)" and "json_result resp = Inr doc"
  shows "turn_body sid i n mn mx url t (c, w)
         = (if t < n - 1 \<and> 0 < mx
            then (if sleep_limit < \<bar>mn + (mx - mn) * units w (drawn w)\<bar>
                  then (Inl (OverflowError ''timestamp too large to convert to C _PyTime_t''),
                        w\<lparr>drawn := Suc (drawn w),
                          trace := trace w @ [Request (POST url (payload sid i t)),
                                              Parse (resp_text resp)]\<rparr>)
                  else if mn + (mx - mn) * units w (drawn w) < 0
                  then (Inl (ValueError ''sleep length must be non-negative''),
                        w\<lparr>drawn := Suc (drawn w),
                          trace := trace w @ [Request (POST url (payload sid i t)),
                                              Parse (resp_text resp)]\<rparr>)
                  else (Inr (c + 1),
                        w\<lparr>drawn := Suc (drawn w),
                          trace := trace w @ [Request (POST url (payload sid i t)),
                                              Parse (resp_text resp),
                                              Sleep (mn + (mx - mn) * units w (drawn w))]\<rparr>))
            else (Inr (c + 1),
                  w\<lparr>trace := trace w @ [Request (POST url (payload sid i t)), Parse (resp_text resp)]\<rparr>))"
  using assms
  by (simp add: turn_body_def requests_post_def send_def raise_for_status_def resp_json_def
      random_uniform_def time_sleep_def Let_def)

lemma sleep_acceptsD:
  "sleep_accepts secs \<Longrightarrow> \<not> sleep_limit < \<bar>secs\<bar> \<and> \<not> secs < 0"
  by (auto simp: sleep_accepts_def)

lemma for_turns_append:
  "for_turns body (ts @ us) s =
     (case for_turns body ts s of
        (Inl e, w) \<Rightarrow> (Inl e, w)
      | (Inr c, w) \<Rightarrow> for_turns body us (c, w))"
  by (induction ts arbitrary: s) (auto split: prod.splits sum.splits)


lemma turn_okE:
  assumes "turn_ok rp"
  obtains resp doc where "rp = Inr resp" and "\<not> is_http_error (status_code resp)"
    and "json_result resp = Inr doc"
proof (cases rp)
  case (Inl e)
  with assms show ?thesis by simp
next
  case (Inr resp)
  with assms obtain doc where "json_result resp = Inr doc"
    by (cases "json_result resp") simp_all
  with Inr assms that show ?thesis by simp
qed

lemma requests_of_turns:
  "requests_of (concat (map (\<lambda>t. [Request (f t), Parse (g t)] @ (if p then [Sleep (h t)] else [])) ts))
     = map f ts"
  by (induction ts) auto

lemma loop_prefix:
  assumes "int k \<le> n - 1"
      and "\<forall>t<k. turn_ok (service v (issued v + t) (POST url (payload sid i (int t))))"
      and "\<forall>t<k. 0 < mx \<longrightarrow> sleep_accepts (mn + (mx - mn) * units v (drawn v + t))"
  shows "\<exists>v'. for_turns (turn_body sid i n mn mx url) (map int [0..<k]) (c, v) = (Inr (c + int k), v')
           \<and> service v' = service v \<and> units v' = units v \<and> clock v' = clock v \<and> bits v' = bits v
           \<and> ticks v' = ticks v \<and> drawn v' = drawn v + (if 0 < mx then k else 0)
           \<and> requests_of (trace v') = requests_of (trace v)
                @ map (\<lambda>t. POST url (payload sid i (int t))) [0..<k]
           \<and> trace v' = trace v
                @ concat (map (\<lambda>t. [Request (POST url (payload sid i (int t))),
                                     Parse (reply_text (service v (issued v + t)
                                                          (POST url (payload sid i (int t)))))]
                                    @ (if 0 < mx
                                       then [Sleep (mn + (mx - mn) * units v (drawn v + t))]
                                       else []))
                           [0..<k])"
  using assms
proof (induction k)
  case 0
  then show ?case by simp
next
  case (Suc k)
  let ?ev = "\<lambda>t. [Request (POST url (payload sid i (int t))),
                   Parse (reply_text (service v (issued v + t) (POST url (payload sid i (int t)))))]
                  @ (if 0 < mx then [Sleep (mn + (mx - mn) * units v (drawn v + t))] else [])"
  let ?body = "turn_body sid i n mn mx url"
  from Suc.prems have "int k \<le> n - 1" by simp
  moreover from Suc.prems
  have "\<forall>t<k. turn_ok (service v (issued v + t) (POST url (payload sid i (int t))))"
    and "\<forall>t<k. 0 < mx \<longrightarrow> sleep_accepts (mn + (mx - mn) * units v (drawn v + t))" by simp_all
  ultimately obtain v' where
    run: "for_turns ?body (map int [0..<k]) (c, v) = (Inr (c + int k), v')"
    and fr: "service v' = service v" "units v' = units v" "clock v' = clock v" "bits v' = bits v"
      "ticks v' = ticks v" "drawn v' = drawn v + (if 0 < mx then k else 0)"
    and rq: "requests_of (trace v') = requests_of (trace v)
                @ map (\<lambda>t. POST url (payload sid i (int t))) [0..<k]"
    and tr: "trace v' = trace v @ concat (map ?ev [0..<k])"
    using Suc.IH by blast
  from rq have iss: "issued v' = issued v + k" by (simp add: issued_def)
  from Suc.prems(2) have "turn_ok (service v (issued v + k) (POST url (payload sid i (int k))))"
    by simp
  then obtain resp doc where
    rep0: "service v (issued v + k) (POST url (payload sid i (int k))) = Inr resp"
    and ok: "\<not> is_http_error (status_code resp)" "json_result resp = Inr doc"
    by (rule turn_okE)
  from rep0 have rep: "service v' (issued v') (POST url (payload sid i (int k))) = Inr resp"
    by (simp add: fr iss)
  from Suc.prems(1) have nonfinal: "int k < n - 1" by simp
  have pause: "0 < mx \<longrightarrow> \<not> sleep_limit < \<bar>mn + (mx - mn) * units v (drawn v + k)\<bar>
                        \<and> \<not> mn + (mx - mn) * units v (drawn v + k) < 0"
    using Suc.prems(3) sleep_acceptsD by blast
  define v2 where "v2 = snd (?body (int k) (c + int k, v'))"
  have step: "?body (int k) (c + int k, v') = (Inr (c + int k + 1), v2)"
    using nonfinal pause by (simp add: v2_def turn_body_good[OF rep ok] fr)
  have fr2: "service v2 = service v" "units v2 = units v" "clock v2 = clock v" "bits v2 = bits v"
    "ticks v2 = ticks v" "drawn v2 = drawn v + (if 0 < mx then Suc k else 0)"
    using nonfinal pause by (simp_all add: v2_def turn_body_good[OF rep ok] fr)
  have "trace v2 = trace v' @ ?ev k"
    using nonfinal pause rep0 by (simp add: v2_def turn_body_good[OF rep ok] fr)
  with tr have tr2: "trace v2 = trace v @ concat (map ?ev [0..<Suc k])" by simp
  have rq2: "requests_of (trace v2) = requests_of (trace v)
                @ map (\<lambda>t. POST url (payload sid i (int t))) [0..<Suc k]"
    unfolding tr2 requests_of_append requests_of_turns by (rule refl)
  have run2: "for_turns ?body (map int [0..<Suc k]) (c, v) = (Inr (c + int (Suc k)), v2)"
    using run step by (simp add: for_turns_append add.assoc)
  from run2 fr2 rq2 tr2 show ?case by blast
qed

lemma after_landing_frame:
  "service (after_landing b i w) = service w" "units (after_landing b i w) = units w"
  "clock (after_landing b i w) = clock w" "bits (after_landing b i w) = bits w"
  "ticks (after_landing b i w) = Suc (ticks w)" "drawn (after_landing b i w) = drawn w + 16"
  "trace (after_landing b i w) = trace w @ [Request (landing_request b i w)]"
  "issued (after_landing b i w) = issued w + 1"
  by (simp_all add: after_landing_def random_session_id_def random_chars_frame issued_def
      requests_of_append)

lemma run_landing_split:
  "run_single_interview b i n mn mx w =
     (case landing_reply b i w of
        Inl e \<Rightarrow> (Inl e, after_landing b i w)
      | Inr resp \<Rightarrow>
          if is_http_error (status_code resp)
          then (Inl (HTTPError (status_code resp) (url_landing b i (session_id_of w))),
                after_landing b i w)
          else (case for_turns (turn_body (session_id_of w) i n mn mx (url_next b)) (py_range n)
                       (1, after_landing b i w) of
                  (Inl e, w4) \<Rightarrow> (Inl e, w4)
                | (Inr c, w4) \<Rightarrow>
                    (Inr (c, clock w4 (ticks w4) - clock w (ticks w)), w4\<lparr>ticks := Suc (ticks w4)\<rparr>)))"
  by (simp add: run_single_interview_def landing_reply_def landing_request_def session_id_of_def
      after_landing_def time_time_def requests_get_def send_def raise_for_status_def
      random_session_id_def random_chars_frame issued_def split_beta Let_def
      split: sum.splits)


lemma loop_reaches:
  assumes reach: "reaches_turn b i mn mx w k" and k: "0 \<le> k" "k < n"
  shows "\<exists>v. for_turns (turn_body (session_id_of w) i n mn mx (url_next b)) (py_range n)
                (1, after_landing b i w)
              = (case turn_body (session_id_of w) i n mn mx (url_next b) k (1 + k, v) of
                   (Inl e, v') \<Rightarrow> (Inl e, v')
                 | (Inr c, v') \<Rightarrow>
                     for_turns (turn_body (session_id_of w) i n mn mx (url_next b))
                       (map int [Suc (nat k)..<nat n]) (c, v'))
           \<and> service v = service w \<and> units v = units w \<and> clock v = clock w
           \<and> ticks v = Suc (ticks w) \<and> issued v = issued w + 1 + nat k
           \<and> drawn v = drawn w + 16 + (if 0 < mx then nat k else 0)
           \<and> requests_of (trace v) = requests_of (trace w)
                @ landing_request b i w # map (turn_request b i w) (py_range k)
           \<and> trace v = trace w @ Request (landing_request b i w)
                # concat (map (turn_events b i n mn mx w) (py_range k))"
proof -
  let ?body = "turn_body (session_id_of w) i n mn mx (url_next b)"
  let ?v0 = "after_landing b i w"
  let ?ev = "\<lambda>t. [Request (POST (url_next b) (payload (session_id_of w) i (int t))),
                   Parse (reply_text (service ?v0 (issued ?v0 + t)
                                        (POST (url_next b) (payload (session_id_of w) i (int t)))))]
                  @ (if 0 < mx then [Sleep (mn + (mx - mn) * units ?v0 (drawn ?v0 + t))] else [])"
  have a: "int (nat k) \<le> n - 1" using k by simp
  have b: "\<forall>t<nat k. turn_ok (service ?v0 (issued ?v0 + t)
              (POST (url_next b) (payload (session_id_of w) i (int t))))"
  proof (intro allI impI)
    fix t assume "t < nat k"
    then have "0 \<le> int t \<and> int t < k" by simp
    with reach have "turn_ok (turn_reply b i w (int t))" by (simp add: reaches_turn_def)
    then show "turn_ok (service ?v0 (issued ?v0 + t)
              (POST (url_next b) (payload (session_id_of w) i (int t))))"
      by (simp add: turn_reply_def turn_request_def after_landing_frame)
  qed
  have c: "\<forall>t<nat k. 0 < mx \<longrightarrow> sleep_accepts (mn + (mx - mn) * units ?v0 (drawn ?v0 + t))"
  proof (intro allI impI)
    fix t assume "t < nat k" and "0 < mx"
    then have "0 \<le> int t \<and> int t < k \<and> 0 < mx" by simp
    with reach have "sleep_accepts (pause_secs mn mx w (int t))"
      unfolding reaches_turn_def by blast
    then show "sleep_accepts (mn + (mx - mn) * units ?v0 (drawn ?v0 + t))"
      by (simp add: pause_secs_def after_landing_frame)
  qed
  from loop_prefix[OF a b c, of 1] obtain v where
    run: "for_turns ?body (map int [0..<nat k]) (1, ?v0) = (Inr (1 + int (nat k)), v)"
    and fr: "service v = service ?v0" "units v = units ?v0" "clock v = clock ?v0"
      "ticks v = ticks ?v0" "drawn v = drawn ?v0 + (if 0 < mx then nat k else 0)"
    and rq: "requests_of (trace v) = requests_of (trace ?v0)
               @ map (\<lambda>t. POST (url_next b) (payload (session_id_of w) i (int t))) [0..<nat k]"
    and tr: "trace v = trace ?v0 @ concat (map ?ev [0..<nat k])"
    by blast
  have split: "[0..<nat n] = [0..<nat k] @ nat k # [Suc (nat k)..<nat n]"
  proof -
    from k have lt: "nat k < nat n" by simp
    then have "nat k + (nat n - nat k) = nat n" by arith
    with upt_add_eq_append[of 0 "nat k" "nat n - nat k"]
    have "[0..<nat n] = [0..<nat k] @ [nat k..<nat n]" by simp
    with lt show ?thesis by (simp add: upt_conv_Cons)
  qed
  have "for_turns ?body (py_range n) (1, ?v0)
          = (case ?body k (1 + k, v) of
               (Inl e, v') \<Rightarrow> (Inl e, v')
             | (Inr c, v') \<Rightarrow> for_turns ?body (map int [Suc (nat k)..<nat n]) (c, v'))"
    using run k by (simp add: py_range_def split for_turns_append)
  moreover have "requests_of (trace v) = requests_of (trace w)
                @ landing_request b i w # map (turn_request b i w) (py_range k)"
    using rq by (simp add: after_landing_frame requests_of_append py_range_def turn_request_def
        comp_def)
  moreover from this have "issued v = issued w + 1 + nat k"
    by (simp add: issued_def py_range_def)
  moreover have "trace v = trace w @ Request (landing_request b i w)
                # concat (map (turn_events b i n mn mx w) (py_range k))"
  proof -
    have "?ev t = turn_events b i n mn mx w (int t)" if "t < nat k" for t
    proof -
      from that k have "int t < n - 1" by simp
      then show ?thesis
        by (simp add: turn_events_def turn_request_def turn_reply_def pause_secs_def
            after_landing_frame)
    qed
    then have "map ?ev [0..<nat k] = map (\<lambda>t. turn_events b i n mn mx w (int t)) [0..<nat k]"
      by (intro map_cong) simp_all
    then have "concat (map ?ev [0..<nat k])
                 = concat (map (\<lambda>t. turn_events b i n mn mx w (int t)) [0..<nat k])"
      by (rule arg_cong)
    also have "\<dots> = concat (map (turn_events b i n mn mx w) (py_range k))"
      by (simp add: py_range_def comp_def)
    finally have "trace v = trace (after_landing b i w)
                    @ concat (map (turn_events b i n mn mx w) (py_range k))"
      using tr by simp
    then show ?thesis by (simp add: after_landing_frame)
  qed
  ultimately show ?thesis
    using fr by (intro exI[of _ v]) (simp add: after_landing_frame)
qed





lemma run_nonjson:
  assumes reach: "reaches_turn b i mn mx w k" and k: "0 \<le> k" "k < n"
      and reply: "turn_reply b i w k = Inr resp" and ok: "\<not> is_http_error (status_code resp)"
      and nonjson: "json_result resp = Inl e" "is_JSONDecodeError e"
  shows "fst (run_single_interview b i n mn mx w)
         = Inl (RuntimeError (''Non-JSON response for session '' @ session_id_of w @ '': ''
                              @ resp_text resp))"
proof -
  from loop_reaches[OF reach k] obtain v where
    loop: "for_turns (turn_body (session_id_of w) i n mn mx (url_next b)) (py_range n)
                (1, after_landing b i w)
              = (case turn_body (session_id_of w) i n mn mx (url_next b) k (1 + k, v) of
                   (Inl e, v') \<Rightarrow> (Inl e, v')
                 | (Inr c, v') \<Rightarrow>
                     for_turns (turn_body (session_id_of w) i n mn mx (url_next b))
                       (map int [Suc (nat k)..<nat n]) (c, v'))"
    and fr: "service v = service w" "issued v = issued w + 1 + nat k"
    by blast
  from reply have rep: "service v (issued v) (POST (url_next b) (payload (session_id_of w) i k)) = Inr resp"
    by (simp add: turn_reply_def turn_request_def fr)
  from reach have land: "status_ok (landing_reply b i w)" by (simp add: reaches_turn_def)
  show ?thesis
    using land by (cases "landing_reply b i w")
      (simp_all add: run_landing_split loop turn_body_nonjson[OF rep ok nonjson])
qed

lemma run_parse_raises:
  assumes reach: "reaches_turn b i mn mx w k" and k: "0 \<le> k" "k < n"
      and reply: "turn_reply b i w k = Inr resp" and ok: "\<not> is_http_error (status_code resp)"
      and raises: "json_result resp = Inl e" "\<not> is_JSONDecodeError e"
  shows "fst (run_single_interview b i n mn mx w) = Inl e"
proof -
  from loop_reaches[OF reach k] obtain v where
    loop: "for_turns (turn_body (session_id_of w) i n mn mx (url_next b)) (py_range n)
                (1, after_landing b i w)
              = (case turn_body (session_id_of w) i n mn mx (url_next b) k (1 + k, v) of
                   (Inl e, v') \<Rightarrow> (Inl e, v')
                 | (Inr c, v') \<Rightarrow>
                     for_turns (turn_body (session_id_of w) i n mn mx (url_next b))
                       (map int [Suc (nat k)..<nat n]) (c, v'))"
    and fr: "service v = service w" "issued v = issued w + 1 + nat k"
    by blast
  from reply have rep: "service v (issued v) (POST (url_next b) (payload (session_id_of w) i k)) = Inr resp"
    by (simp add: turn_reply_def turn_request_def fr)
  from reach have land: "status_ok (landing_reply b i w)" by (simp add: reaches_turn_def)
  show ?thesis
    using land by (cases "landing_reply b i w")
      (simp_all add: run_landing_split loop turn_body_parse_raises[OF rep ok raises])
qed

lemma py_range_snoc: "1 \<le> n \<Longrightarrow> py_range n = py_range (n - 1) @ [n - 1]"
proof -
  assume n: "1 \<le> n"
  then have "nat n = Suc (nat (n - 1))" by arith
  with n show ?thesis by (simp add: py_range_def)
qed

lemma run_success:
  assumes comp: "completes b i n mn mx w"
  shows "fst (run_single_interview b i n mn mx w)
         = Inr (1 + max 0 n, clock w (Suc (ticks w)) - clock w (ticks w))"
    and "trace (snd (run_single_interview b i n mn mx w))
         = trace w @ Request (landing_request b i w)
             # concat (map (turn_events b i n mn mx w) (py_range n))"
proof -
  from comp have reach: "reaches_turn b i mn mx w (n - 1)"
    and last: "1 \<le> n \<longrightarrow> turn_ok (turn_reply b i w (n - 1))"
    by (simp_all add: completes_def)
  from reach have land: "status_ok (landing_reply b i w)" by (simp add: reaches_turn_def)
  have "fst (run_single_interview b i n mn mx w)
         = Inr (1 + max 0 n, clock w (Suc (ticks w)) - clock w (ticks w))
      \<and> trace (snd (run_single_interview b i n mn mx w))
         = trace w @ Request (landing_request b i w)
             # concat (map (turn_events b i n mn mx w) (py_range n))"
  proof (cases "1 \<le> n")
    case False
    then have "py_range n = []" by (simp add: py_range_def)
    with land False show ?thesis
      by (cases "landing_reply b i w") (simp_all add: run_landing_split after_landing_frame)
  next
    case True
    then have k: "0 \<le> n - 1" "n - 1 < n" by simp_all
    from loop_reaches[OF reach k] obtain v where
      loop: "for_turns (turn_body (session_id_of w) i n mn mx (url_next b)) (py_range n)
                  (1, after_landing b i w)
                = (case turn_body (session_id_of w) i n mn mx (url_next b) (n - 1) (1 + (n - 1), v) of
                     (Inl e, v') \<Rightarrow> (Inl e, v')
                   | (Inr c, v') \<Rightarrow>
                       for_turns (turn_body (session_id_of w) i n mn mx (url_next b))
                         (map int [Suc (nat (n - 1))..<nat n]) (c, v'))"
      and fr: "service v = service w" "issued v = issued w + 1 + nat (n - 1)"
        "clock v = clock w" "ticks v = Suc (ticks w)"
      and tr: "trace v = trace w @ Request (landing_request b i w)
                # concat (map (turn_events b i n mn mx w) (py_range (n - 1)))"
      by blast
    from last True have "turn_ok (turn_reply b i w (n - 1))" by simp
    then obtain resp doc where
      rep0: "turn_reply b i w (n - 1) = Inr resp"
      and ok: "\<not> is_http_error (status_code resp)" "json_result resp = Inr doc"
      by (rule turn_okE)
    from rep0 have rep: "service v (issued v)
        (POST (url_next b) (payload (session_id_of w) i (n - 1))) = Inr resp"
      by (simp add: turn_reply_def turn_request_def fr)
    have empty: "[Suc (nat (n - 1))..<nat n] = []" using True by simp
    have final: "turn_events b i n mn mx w (n - 1)
                   = [Request (POST (url_next b) (payload (session_id_of w) i (n - 1))),
                      Parse (resp_text resp)]"
      using rep0 by (simp add: turn_events_def turn_request_def)
    have loop': "for_turns (turn_body (session_id_of w) i n mn mx (url_next b)) (py_range n)
                  (1, after_landing b i w)
                = (Inr (1 + n),
                   v\<lparr>trace := trace v @ [Request (POST (url_next b)
                                                   (payload (session_id_of w) i (n - 1))),
                                          Parse (resp_text resp)]\<rparr>)"
      unfolding loop by (simp add: turn_body_good[OF rep ok] empty)
    have rhs: "concat (map (turn_events b i n mn mx w) (py_range n))
                 = concat (map (turn_events b i n mn mx w) (py_range (n - 1)))
                   @ [Request (POST (url_next b) (payload (session_id_of w) i (n - 1))),
                      Parse (resp_text resp)]"
      unfolding py_range_snoc[OF True] by (simp add: final)
    show ?thesis
      unfolding rhs using land True by (cases "landing_reply b i w")
        (simp_all add: run_landing_split loop' fr tr)
  qed
  then show "fst (run_single_interview b i n mn mx w)
         = Inr (1 + max 0 n, clock w (Suc (ticks w)) - clock w (ticks w))"
    and "trace (snd (run_single_interview b i n mn mx w))
         = trace w @ Request (landing_request b i w)
             # concat (map (turn_events b i n mn mx w) (py_range n))"
    by simp_all
qed


lemma length_chars: "length chars = 62"
  by (simp add: chars_def ascii_letters_def ascii_lowercase_def ascii_uppercase_def digits_def)

lemma distinct_chars: "distinct chars"
  by (simp add: chars_def ascii_letters_def ascii_lowercase_def ascii_uppercase_def digits_def)

lemma random_chars_closed:
  "fst (random_chars n w) = map (\<lambda>j. chars ! (bits w (drawn w + j) mod length chars)) [0..<n]"
proof (induction n arbitrary: w)
  case 0
  then show ?case by simp
next
  case (Suc n)
  have "[0..<Suc n] = 0 # map Suc [0..<n]"
    by (simp add: upt_conv_Cons map_Suc_upt del: upt_Suc)
  then show ?case
    by (simp add: Suc.IH random_choice_def split_beta comp_def del: upt_Suc)
qed

lemma mock_fields:
  "issued (mock_world r) = 0" "trace (mock_world r) = []" "ticks (mock_world r) = 0"
  "drawn (mock_world r) = 0" "clock (mock_world r) n = real n" "units (mock_world r) n = 1 / 2"
  "service (mock_world r) n rq = Inr (r n)" "bits (mock_world r) n = 7 * n + 3"
  by (simp_all add: mock_world_def issued_def)

lemma upt_16: "[0..<16] = [0, 1, 2, 3, 4, 5, 6, 7, 8, 9, 10, 11, 12, 13, 14, 15 :: nat]"
  by (simp add: upt_rec)

lemma mock_session_id: "session_id_of (mock_world r) = ''dkryFMT07elszGNU''"
  by (simp add: session_id_of_def random_session_id_def random_chars_closed mock_fields upt_16
      length_chars chars_def ascii_letters_def ascii_lowercase_def ascii_uppercase_def digits_def)

lemma mock_landing_reply: "landing_reply b i (mock_world r) = Inr (r 0)"
  by (simp add: landing_reply_def mock_fields)

lemma mock_turn_reply: "turn_reply b i (mock_world r) t = Inr (r (Suc (nat t)))"
  by (simp add: turn_reply_def mock_fields)

lemma mock_pause: "pause_secs mn mx (mock_world r) t = mn + (mx - mn) / 2"
  by (simp add: pause_secs_def mock_fields)

lemma mock_always_succeeds: "always_succeeds (mock_world always_ok)"
  by (simp add: always_succeeds_def mock_fields always_ok_def ok_response_def is_http_error_def)

lemma mock_unit_draws: "unit_draws (mock_world r)"
  by (simp add: unit_draws_def mock_fields)

lemma uniform_between:
  fixes mn mx u :: real
  assumes "0 \<le> u" "u \<le> 1"
  shows "min mn mx \<le> mn + (mx - mn) * u" and "mn + (mx - mn) * u \<le> max mn mx"
proof -
  have eq: "mn + (mx - mn) * u = mn * (1 - u) + mx * u" by (simp add: algebra_simps)
  have "min mn mx * (1 - u) \<le> mn * (1 - u)" and "min mn mx * u \<le> mx * u"
    using assms by (simp_all add: mult_right_mono)
  then have "min mn mx * (1 - u) + min mn mx * u \<le> mn * (1 - u) + mx * u" by (rule add_mono)
  then show "min mn mx \<le> mn + (mx - mn) * u" by (simp add: eq algebra_simps)
  have "mn * (1 - u) \<le> max mn mx * (1 - u)" and "mx * u \<le> max mn mx * u"
    using assms by (simp_all add: mult_right_mono)
  then have "mn * (1 - u) + mx * u \<le> max mn mx * (1 - u) + max mn mx * u" by (rule add_mono)
  then show "mn + (mx - mn) * u \<le> max mn mx" by (simp add: eq algebra_simps)
qed

lemma pause_accepted:
  assumes "delays_accepted mn mx" "0 < mx" "0 \<le> u" "u \<le> 1"
  shows "sleep_accepts (mn + (mx - mn) * u)"
proof -
  from assms have "0 \<le> min mn mx" "max mn mx \<le> sleep_limit"
    by (simp_all add: delays_accepted_def sleep_accepts_def)
  with uniform_between[OF assms(3,4), of mn mx] show ?thesis
    unfolding sleep_accepts_def by linarith
qed

lemma turn_ok_status_ok: "turn_ok rp \<Longrightarrow> status_ok rp"
  by (cases rp) simp_all

lemma always_reaches:
  assumes "always_succeeds w" "unit_draws w" "delays_accepted mn mx"
  shows "reaches_turn b i mn mx w k"
  using assms
  by (auto simp: reaches_turn_def always_succeeds_def unit_draws_def landing_reply_def
      turn_reply_def pause_secs_def intro!: turn_ok_status_ok pause_accepted)

lemma always_completes:
  assumes "always_succeeds w" "unit_draws w" "delays_accepted mn mx"
  shows "completes b i n mn mx w"
  using assms always_reaches[OF assms]
  by (simp add: completes_def always_succeeds_def turn_reply_def)

lemma collect_const:
  "\<forall>f\<in>set fs. \<exists>d. f = Inr (c, d) \<Longrightarrow> collect t fs = Inr (t + c * int (length fs))"
  by (induction fs arbitrary: t) (auto simp: algebra_simps)

lemma collect_first_failure:
  "j < length fs \<Longrightarrow> fs ! j = Inl e \<Longrightarrow> \<forall>j'<j. \<exists>v. fs ! j' = Inr v \<Longrightarrow> collect t fs = Inl e"
proof (induction fs arbitrary: j t)
  case Nil
  then show ?case by simp
next
  case (Cons f fs)
  show ?case
  proof (cases j)
    case 0
    with Cons.prems show ?thesis by simp
  next
    case (Suc j')
    with Cons.prems(3) obtain v where f: "f = Inr v" by fastforce
    from Suc Cons.prems have "j' < length fs" "fs ! j' = Inl e"
      "\<forall>k<j'. \<exists>v. fs ! k = Inr v" by auto
    from Cons.IH[OF this] f show ?thesis by (simp split: prod.splits)
  qed
qed

lemma throughput_total: "throughput n d = Inr (if 0 < d then of_int n / d else 0)"
  by (simp add: throughput_def truediv_def)

lemma yields_each_length: "yields_each order n \<Longrightarrow> length order = n"
  by (metis yields_each_def card_lessThan distinct_card)

lemma as_completed_outcomes:
  assumes "yields_each order n"
  shows "as_completed order (map f [0..<n]) = map f order"
proof -
  from assms have "\<forall>j\<in>set order. j < n" by (simp add: yields_each_def)
  then show ?thesis by (simp add: as_completed_def)
qed

lemma main_first_failure:
  assumes "0 < pool_size a" and "yields_each order (nat (users a))" and "j < length order"
      and "session_outcome a ss (order ! j) = Inl e"
      and "\<forall>j'<j. \<exists>v. session_outcome a ss (order ! j') = Inr v"
  shows "main a gs ge ss order = Inl e"
proof -
  have "collect 0 (map (session_outcome a ss) order) = Inl e"
    using assms(3-5) by (intro collect_first_failure[where j = j]) simp_all
  with assms(1) show ?thesis
    by (simp add: main_def as_completed_outcomes[OF assms(2)])
qed

lemma main_success:
  assumes pool: "0 < pool_size a" and order: "yields_each order (nat (users a))"
      and quiet: "delays_accepted (min_delay a) (max_delay a)"
      and ok: "\<forall>j<nat (users a). always_succeeds (ss j) \<and> unit_draws (ss j)"
  shows "main a gs ge ss order =
           Inr \<lparr>total_requests = (1 + max 0 (turns a)) * max 0 (users a), total_duration = ge - gs,
                rps = (if 0 < ge - gs
                       then of_int ((1 + max 0 (turns a)) * max 0 (users a)) / (ge - gs) else 0)\<rparr>"
proof -
  have "\<forall>f\<in>set (map (session_outcome a ss) order). \<exists>d. f = Inr (1 + max 0 (turns a), d)"
  proof
    fix f assume "f \<in> set (map (session_outcome a ss) order)"
    then obtain j where "j \<in> set order" and f: "f = session_outcome a ss j" by auto
    with order have j: "j < nat (users a)" by (simp add: yields_each_def)
    from ok j quiet
    have "completes (base_url a) (interview_id a) (turns a) (min_delay a) (max_delay a) (ss j)"
      by (intro always_completes) simp_all
    then show "\<exists>d. f = Inr (1 + max 0 (turns a), d)"
      unfolding f session_outcome_def by (simp add: run_success(1))
  qed
  from collect_const[OF this, of 0] yields_each_length[OF order]
  have "collect 0 (map (session_outcome a ss) order)
          = Inr ((1 + max 0 (turns a)) * max 0 (users a))"
    by (simp add: max_def)
  with pool show ?thesis
    by (simp add: main_def throughput_total Let_def as_completed_outcomes[OF order])
qed

lemma rstrip_trailing: "rstrip (b @ replicate m (CHR ''/'')) = rstrip b"
  by (induction m) (simp_all add: rstrip_def replicate_append_same)

lemma rstrip_idem: "rstrip (rstrip b) = rstrip b"
  by (simp add: rstrip_def)

lemma takeWhile_eq_replicate: "takeWhile (\<lambda>c. c = x) xs = replicate (length (takeWhile (\<lambda>c. c = x) xs)) x"
  by (induction xs) simp_all

lemma rstrip_decompose:
  "b = rstrip b @ replicate (length b - length (rstrip b)) (CHR ''/'')"
proof -
  let ?P = "\<lambda>c. c = CHR ''/''"
  have "rev b = takeWhile ?P (rev b) @ dropWhile ?P (rev b)" by simp
  then have "b = rev (dropWhile ?P (rev b)) @ rev (takeWhile ?P (rev b))"
    by (metis rev_append rev_rev_ident)
  moreover have "rev (takeWhile ?P (rev b)) = replicate (length (takeWhile ?P (rev b))) (CHR ''/'')"
    using takeWhile_eq_replicate[of "CHR ''/''" "rev b"] by (metis rev_replicate)
  moreover have "length b - length (rstrip b) = length (takeWhile ?P (rev b))"
  proof -
    have "length (rev b) = length (takeWhile ?P (rev b)) + length (dropWhile ?P (rev b))"
      by (metis length_append takeWhile_dropWhile_id)
    then show ?thesis by (simp add: rstrip_def)
  qed
  ultimately show ?thesis by (simp add: rstrip_def)
qed

lemma run_landing_failure:
  assumes "landing_reply b i w = Inr resp" "is_http_error (status_code resp)"
  shows "fst (run_single_interview b i n mn mx w)
           = Inl (HTTPError (status_code resp) (url_landing b i (session_id_of w)))"
    and "trace (snd (run_single_interview b i n mn mx w)) = trace w @ [Request (landing_request b i w)]"
  using assms by (simp_all add: run_landing_split after_landing_frame)

lemma run_no_turns_trace:
  "trace (snd (run_single_interview b i 0 mn mx w)) = trace w @ [Request (landing_request b i w)]"
  by (cases "landing_reply b i w")
    (simp_all add: run_landing_split after_landing_frame py_range_def)

lemma mock_url_landing:
  "url_landing ''http://127.0.0.1:8000'' ''STOCK_MARKET'' (session_id_of (mock_world r))
     = ''http://127.0.0.1:8000/STOCK_MARKET/dkryFMT07elszGNU''"
  by (simp add: mock_session_id url_landing_def rstrip_def)



lemma mock_args_fields:
  "base_url (mock_args n t) = ''http://127.0.0.1:8000''" "interview_id (mock_args n t) = ''STOCK_MARKET''"
  "users (mock_args n t) = n" "turns (mock_args n t) = t" "min_delay (mock_args n t) = 1"
  "max_delay (mock_args n t) = 3" "pool_size (mock_args n t) = n"
  by (simp_all add: mock_args_def pool_size_def)


lemma mock_reaches:
  assumes "\<forall>t<nat k. r (Suc t) = ok_response" "r 0 = ok_response"
      and "sleep_accepts (mn + (mx - mn) / 2)"
  shows "reaches_turn b i mn mx (mock_world r) k"
proof -
  have ok: "turn_ok (Inr ok_response)"
    by (simp add: ok_response_def is_http_error_def)
  have "turn_ok (turn_reply b i (mock_world r) t)" if "0 \<le> t" "t < k" for t
  proof -
    from that have "nat t < nat k" by simp
    with assms(1) have "r (Suc (nat t)) = ok_response" by blast
    with ok show ?thesis by (simp add: mock_turn_reply)
  qed
  moreover have "status_ok (landing_reply b i (mock_world r))"
    using assms(2) ok by (simp add: mock_landing_reply turn_ok_status_ok)
  ultimately show ?thesis
    using assms(3) by (simp add: reaches_turn_def mock_pause)
qed

lemma sleep_accepts_small: "0 \<le> secs \<Longrightarrow> secs \<le> 1000 \<Longrightarrow> sleep_accepts secs"
  by (simp add: sleep_accepts_def sleep_limit_def)

lemma mock_delays_accepted: "delays_accepted 1 3" "delays_accepted 0 0" "delays_accepted 5 1"
  by (simp_all add: delays_accepted_def sleep_accepts_small)

lemma yields_each_upt: "yields_each [0..<n] n"
  by (auto simp: yields_each_def)

subsection \<open>Pauses\<close>







lemma run_status_ok_landing:
  "status_ok (landing_reply b i w) \<Longrightarrow> \<exists>resp. landing_reply b i w = Inr resp"
  by (cases "landing_reply b i w") simp_all

section \<open>The claims\<close>




text \<open>
  C2, as the code has it. A session that fails leaves its exception in its future, and
  \<open>future.result()\<close> raises it again inside the loop over \<open>as_completed(futures)\<close>, which
  has no handler: in whatever order the futures are yielded, the first one yielded whose
  session failed ends \<open>main\<close> with that exception, whatever the futures yielded after it
  hold, and no total is reported.
\<close>

theorem first_failure_ends_main:
  assumes "0 < pool_size a" and "yields_each order (nat (users a))" and "j < length order"
      and "session_outcome a ss (order ! j) = Inl e"
      and "\<forall>j'<j. \<exists>v. session_outcome a ss (order ! j') = Inr v"
  shows "main a gs ge ss order = Inl e"
  using assms by (rule main_first_failure)

theorem first_failure_ends_main_witness:
  "main (mock_args 3 2) 0 10 first_fails [2, 0, 1]
     = Inl (HTTPError 500 ''http://127.0.0.1:8000/STOCK_MARKET/dkryFMT07elszGNU'')"
proof -
  have order: "yields_each [2, 0, 1] 3" by (auto simp: yields_each_def)
  have failed: "session_outcome (mock_args 3 2) first_fails 0
          = Inl (HTTPError 500 ''http://127.0.0.1:8000/STOCK_MARKET/dkryFMT07elszGNU'')"
    by (simp add: session_outcome_def first_fails_def mock_args_fields mock_url_landing
        run_landing_failure(1)[where resp = error_response] mock_landing_reply fails_at_def
        error_response_def is_http_error_def)
  have "completes ''http://127.0.0.1:8000'' ''STOCK_MARKET'' 2 1 3 (mock_world always_ok)"
    by (intro always_completes mock_always_succeeds mock_unit_draws mock_delays_accepted)
  then have passed: "session_outcome (mock_args 3 2) first_fails 2 = Inr (3, 1)"
    by (simp add: session_outcome_def first_fails_def mock_args_fields run_success(1) mock_fields)
  from first_failure_ends_main[of "mock_args 3 2" "[2, 0, 1]" 1 first_fails _ 0 10] order
    failed passed
  show ?thesis by (simp add: mock_args_fields)
qed

text \<open>
  The claim C2 itself fails: with two users, the session submitted first fails at its
  landing request and the other one succeeds with one request, but in either order of
  the futures \<open>main\<close> ends with the exception of the first session and reports no total.
\<close>

theorem failure_escapes_counterexample:
  "session_outcome (mock_args 2 0) first_fails 1 = Inr (1, 1)
   \<and> main (mock_args 2 0) 0 10 first_fails [0, 1]
       = Inl (HTTPError 500 ''http://127.0.0.1:8000/STOCK_MARKET/dkryFMT07elszGNU'')
   \<and> main (mock_args 2 0) 0 10 first_fails [1, 0]
       = Inl (HTTPError 500 ''http://127.0.0.1:8000/STOCK_MARKET/dkryFMT07elszGNU'')"
proof -
  have o1: "yields_each [0, 1] 2" and o2: "yields_each [1, 0] 2"
    by (auto simp: yields_each_def)
  have a: "session_outcome (mock_args 2 0) first_fails 0
          = Inl (HTTPError 500 ''http://127.0.0.1:8000/STOCK_MARKET/dkryFMT07elszGNU'')"
    by (simp add: session_outcome_def first_fails_def mock_args_fields mock_url_landing
        run_landing_failure(1)[where resp = error_response] mock_landing_reply fails_at_def
        error_response_def is_http_error_def)
  have "completes ''http://127.0.0.1:8000'' ''STOCK_MARKET'' 0 1 3 (mock_world always_ok)"
    by (intro always_completes mock_always_succeeds mock_unit_draws mock_delays_accepted)
  then have b: "session_outcome (mock_args 2 0) first_fails 1 = Inr (1, 1)"
    by (simp add: session_outcome_def first_fails_def mock_args_fields run_success(1) mock_fields)
  from main_first_failure[of "mock_args 2 0" "[0, 1]" 0 first_fails _ 0 10] o1 a
  have m1: "main (mock_args 2 0) 0 10 first_fails [0, 1]
       = Inl (HTTPError 500 ''http://127.0.0.1:8000/STOCK_MARKET/dkryFMT07elszGNU'')"
    by (simp add: mock_args_fields)
  from main_first_failure[of "mock_args 2 0" "[1, 0]" 1 first_fails _ 0 10] o2 a b
  have m2: "main (mock_args 2 0) 0 10 first_fails [1, 0]
       = Inl (HTTPError 500 ''http://127.0.0.1:8000/STOCK_MARKET/dkryFMT07elszGNU'')"
    by (simp add: mock_args_fields)
  from b m1 m2 show ?thesis by simp
qed







text \<open>
  C5, as the code has it. When the session gets to turn \<open>k\<close>, the request of that turn is
  answered with a status that \<open>raise_for_status\<close> accepts and \<open>resp.json()\<close> raises on
  the body: if the exception is json.JSONDecodeError, the session ends with a
  RuntimeError whose message holds the session identifier and the raw body; any other
  exception of \<open>resp.json()\<close> is not caught and ends the session as it is.
\<close>

theorem non_json_turn_fails:
  assumes "reaches_turn b i mn mx w k" and "0 \<le> k" and "k < n"
      and "turn_reply b i w k = Inr resp" and "\<not> is_http_error (status_code resp)"
      and "json_result resp = Inl e"
  shows "(is_JSONDecodeError e \<longrightarrow>
            fst (run_single_interview b i n mn mx w)
              = Inl (RuntimeError (''Non-JSON response for session '' @ session_id_of w @ '': ''
                                   @ resp_text resp)))
       \<and> (\<not> is_JSONDecodeError e \<longrightarrow> fst (run_single_interview b i n mn mx w) = Inl e)"
  using run_nonjson[OF assms] run_parse_raises[OF assms] by blast

theorem non_json_turn_fails_witness:
  "fst (run_single_interview ''http://127.0.0.1:8000'' ''STOCK_MARKET'' 3 1 3 (mock_world (html_at 2)))
     = Inl (RuntimeError ''Non-JSON response for session dkryFMT07elszGNU: <html>'')
   \<and> fst (run_single_interview ''http://127.0.0.1:8000'' ''STOCK_MARKET'' 3 1 3 (mock_world (deep_at 2)))
     = Inl (RecursionError ''maximum recursion depth exceeded'')"
proof -
  have "reaches_turn ''http://127.0.0.1:8000'' ''STOCK_MARKET'' 1 3 (mock_world (html_at 2)) 1"
    by (rule mock_reaches) (simp_all add: html_at_def sleep_accepts_small)
  from non_json_turn_fails[OF this, of 3 html_response "JSONDecodeError ''Expecting value''"]
  have a: "fst (run_single_interview ''http://127.0.0.1:8000'' ''STOCK_MARKET'' 3 1 3
                 (mock_world (html_at 2)))
             = Inl (RuntimeError ''Non-JSON response for session dkryFMT07elszGNU: <html>'')"
    by (simp add: mock_turn_reply html_at_def html_response_def is_http_error_def mock_session_id)
  have "reaches_turn ''http://127.0.0.1:8000'' ''STOCK_MARKET'' 1 3 (mock_world (deep_at 2)) 1"
    by (rule mock_reaches) (simp_all add: deep_at_def sleep_accepts_small)
  from non_json_turn_fails[OF this, of 3 deep_response
      "RecursionError ''maximum recursion depth exceeded''"]
  have "fst (run_single_interview ''http://127.0.0.1:8000'' ''STOCK_MARKET'' 3 1 3
                 (mock_world (deep_at 2)))
             = Inl (RecursionError ''maximum recursion depth exceeded'')"
    by (simp add: mock_turn_reply deep_at_def deep_response_def is_http_error_def)
  with a show ?thesis by simp
qed

text \<open>
  The claim C5 itself fails for a body that cannot be parsed and on which \<open>resp.json()\<close>
  raises another exception than json.JSONDecodeError: when the first turn is answered
  with status 200 and a body of 100000 opening brackets, the session ends with the
  RecursionError of the parser, which holds neither the session identifier nor the body.
\<close>

theorem deep_body_counterexample:
  "fst (run_single_interview ''http://127.0.0.1:8000'' ''STOCK_MARKET'' 3 1 3 (mock_world (deep_at 1)))
     = Inl (RecursionError ''maximum recursion depth exceeded'')"
proof -
  have "reaches_turn ''http://127.0.0.1:8000'' ''STOCK_MARKET'' 1 3 (mock_world (deep_at 1)) 0"
    by (rule mock_reaches) (simp_all add: deep_at_def sleep_accepts_small)
  from run_parse_raises[OF this, of 3 deep_response
      "RecursionError ''maximum recursion depth exceeded''"]
  show ?thesis
    by (simp add: mock_turn_reply deep_at_def deep_response_def is_http_error_def)
qed




text \<open>
  C7. The reported throughput is the total of requests divided by the total duration when
  the duration is positive (100 requests in 10.0 seconds give 10.0 requests per second)
  and 0 when the duration is zero; the division never raises ZeroDivisionError, since
  \<open>throughput\<close> always returns a value. What \<open>main\<close> reports as \<open>rps\<close> is this value for
  the total and the duration it reports.
\<close>

theorem throughput_guarded:
  "throughput n d = Inr (if 0 < d then of_int n / d else 0)
   \<and> throughput 100 10 = Inr 10
   \<and> throughput n 0 = Inr 0
   \<and> (main a gs ge ss order = Inr r \<longrightarrow>
        throughput (total_requests r) (total_duration r) = Inr (rps r))"
proof -
  have "main a gs ge ss order = Inr r \<longrightarrow> throughput (total_requests r) (total_duration r) = Inr (rps r)"
    by (auto simp: main_def Let_def throughput_total split: if_splits sum.splits)
  then show ?thesis by (simp add: throughput_total)
qed

theorem throughput_guarded_witness:
  "main (mock_args 50 1) 0 10 (mock_sessions always_ok) [0..<50]
     = Inr \<lparr>total_requests = 100, total_duration = 10, rps = 10\<rparr>
   \<and> throughput 100 10 = Inr 10"
proof -
  have m: "main (mock_args 50 1) 0 10 (mock_sessions always_ok) [0..<50]
             = Inr \<lparr>total_requests = 100, total_duration = 10, rps = 10\<rparr>"
    using main_success[of "mock_args 50 1" "[0..<50]" "mock_sessions always_ok" 0 10]
      yields_each_upt[of 50]
    by (simp add: mock_args_fields mock_sessions_def mock_always_succeeds mock_unit_draws
        mock_delays_accepted)
  from m throughput_guarded[of 100 10 "mock_args 50 1" 0 10 "mock_sessions always_ok"
      "[0..<50]" "\<lparr>total_requests = 100, total_duration = 10, rps = 10\<rparr>"]
  show ?thesis by simp
qed

text \<open>
  C8. For a length \<open>n \<ge> 0\<close> the identifier has exactly \<open>n\<close> characters, all of them from
  the alphabet of the 26 lower-case letters, the 26 upper-case letters and the 10 digits.
  Its j-th character is the element of the alphabet at the index below 62 that the
  generator draws for it, and the 62 indices correspond one to one to the 62 symbols of
  the alphabet, so that a uniform draw of the index is a uniform draw of the symbol. The
  session itself asks for the default length 16.
\<close>

theorem session_id_alphabet:
  assumes "0 \<le> len"
  shows "int (length (fst (random_session_id len w))) = len
       \<and> set (fst (random_session_id len w)) \<subseteq> set chars
       \<and> fst (random_session_id len w)
           = map (\<lambda>j. chars ! (bits w (drawn w + j) mod 62)) [0..<nat len]
       \<and> chars = ''abcdefghijklmnopqrstuvwxyz'' @ ''ABCDEFGHIJKLMNOPQRSTUVWXYZ'' @ ''0123456789''
       \<and> length chars = 62 \<and> distinct chars
       \<and> bij_betw (\<lambda>r. chars ! r) {..<62} (set chars)
       \<and> length (session_id_of w) = 16"
proof -
  have closed: "fst (random_session_id len w)
           = map (\<lambda>j. chars ! (bits w (drawn w + j) mod 62)) [0..<nat len]"
    by (simp add: random_session_id_def random_chars_closed length_chars)
  have "chars ! (x mod 62) \<in> set chars" for x
    by (intro nth_mem) (simp add: length_chars)
  then have "set (fst (random_session_id len w)) \<subseteq> set chars"
    unfolding closed by auto
  moreover have "bij_betw (\<lambda>r. chars ! r) {..<62} (set chars)"
    by (intro bij_betw_nth distinct_chars) (simp_all add: length_chars)
  moreover have "chars = ''abcdefghijklmnopqrstuvwxyz'' @ ''ABCDEFGHIJKLMNOPQRSTUVWXYZ'' @ ''0123456789''"
    by (simp add: chars_def ascii_letters_def ascii_lowercase_def ascii_uppercase_def digits_def)
  moreover have "length (session_id_of w) = 16"
    by (simp add: session_id_of_def random_session_id_def random_chars_closed)
  ultimately show ?thesis
    using assms closed length_chars distinct_chars by simp
qed

theorem session_id_alphabet_witness:
  "fst (random_session_id 16 (mock_world always_ok)) = ''dkryFMT07elszGNU''
   \<and> int (length (fst (random_session_id 16 (mock_world always_ok)))) = 16
   \<and> set (fst (random_session_id 16 (mock_world always_ok))) \<subseteq> set chars"
proof -
  have nonneg: "0 \<le> (16 :: int)" by simp
  from session_id_alphabet[OF nonneg, of "mock_world always_ok"]
  have len: "int (length (fst (random_session_id 16 (mock_world always_ok)))) = 16"
    and sub: "set (fst (random_session_id 16 (mock_world always_ok))) \<subseteq> set chars"
    by blast+
  have "fst (random_session_id 16 (mock_world always_ok)) = ''dkryFMT07elszGNU''"
    using mock_session_id[of always_ok] by (simp add: session_id_of_def)
  with len sub show ?thesis by (intro conjI)
qed

text \<open>
  C9. With \<open>num_turns = 0\<close> the session issues the landing request and nothing else: the
  trace grows by that one request, with no call of \<open>resp.json\<close> and no call of
  \<open>time.sleep\<close>, whatever the reply. When the reply passes \<open>raise_for_status\<close> the
  session returns the request count 1.
\<close>

theorem no_turns_one_request:
  "trace (snd (run_single_interview b i 0 mn mx w)) = trace w @ [Request (landing_request b i w)]
   \<and> (status_ok (landing_reply b i w) \<longrightarrow>
        fst (run_single_interview b i 0 mn mx w)
          = Inr (1, clock w (Suc (ticks w)) - clock w (ticks w)))"
proof -
  have "status_ok (landing_reply b i w) \<longrightarrow>
        fst (run_single_interview b i 0 mn mx w)
          = Inr (1, clock w (Suc (ticks w)) - clock w (ticks w))"
    by (cases "landing_reply b i w")
      (simp_all add: run_landing_split after_landing_frame py_range_def)
  then show ?thesis by (simp add: run_no_turns_trace)
qed

theorem no_turns_one_request_witness:
  "status_ok (landing_reply ''http://127.0.0.1:8000'' ''STOCK_MARKET'' (mock_world always_ok))
   \<and> fst (run_single_interview ''http://127.0.0.1:8000'' ''STOCK_MARKET'' 0 1 3 (mock_world always_ok))
       = Inr (1, 1)
   \<and> trace (snd (run_single_interview ''http://127.0.0.1:8000'' ''STOCK_MARKET'' 0 1 3
                  (mock_world always_ok)))
       = [Request (GET ''http://127.0.0.1:8000/STOCK_MARKET/dkryFMT07elszGNU'')]"
  using no_turns_one_request[of "''http://127.0.0.1:8000''" "''STOCK_MARKET''" 1 3
      "mock_world always_ok"]
  by (simp add: mock_landing_reply always_ok_def ok_response_def is_http_error_def
      mock_url_landing mock_fields landing_request_def)

text \<open>
  C10. Trailing slashes of the base URL do not matter: with any number of \<open>/\<close> appended,
  the landing URL and the turn URL are the same, and so is the whole run of the session.
  \<open>rstrip\<close> removes exactly the trailing slashes and is idempotent, so a base URL that
  has been stripped already gives the same URLs again.
\<close>

theorem trailing_slashes_ignored:
  "url_landing (b @ replicate m (CHR ''/'')) i s = url_landing b i s
   \<and> url_next (b @ replicate m (CHR ''/'')) = url_next b
   \<and> run_single_interview (b @ replicate m (CHR ''/'')) i n mn mx w = run_single_interview b i n mn mx w
   \<and> rstrip (rstrip b) = rstrip b
   \<and> url_landing (rstrip b) i s = url_landing b i s
   \<and> url_next (rstrip b) = url_next b
   \<and> b = rstrip b @ replicate (length b - length (rstrip b)) (CHR ''/'')"
proof -
  have landing: "url_landing (b @ replicate m (CHR ''/'')) i s = url_landing b i s" for s
    by (simp add: url_landing_def rstrip_trailing)
  have next_turn: "url_next (b @ replicate m (CHR ''/'')) = url_next b"
    by (simp add: url_next_def rstrip_trailing)
  have "run_single_interview (b @ replicate m (CHR ''/'')) i n mn mx w
          = run_single_interview b i n mn mx w"
    unfolding run_single_interview_def landing next_turn by (rule refl)
  moreover have "url_landing (rstrip b) i s = url_landing b i s"
    by (simp add: url_landing_def rstrip_idem)
  moreover have "url_next (rstrip b) = url_next b"
    by (simp add: url_next_def rstrip_idem)
  ultimately show ?thesis
    using rstrip_decompose[of b] landing next_turn by (simp add: rstrip_idem)
qed

end
